theory Spec2Isabelle
  imports Main "HOL-Library.AList"
begin

section \<open>Data model of pkg/proxy/endpoints.go\<close>

text \<open>
  Go's \<open>time.Time\<close> is read as an instant on the integer line, counted from the zero
  value \<open>time.Time{}\<close>; \<open>IsZero\<close> compares with that origin and \<open>After\<close> is the strict
  order. Instants before the origin are negative.
\<close>

type_synonym Time = int

definition zeroTime :: Time where
  "zeroTime = 0"

definition IsZero :: "Time \<Rightarrow> bool" where
  "IsZero t = (t = zeroTime)"

definition After :: "Time \<Rightarrow> Time \<Rightarrow> bool" where
  "After t u = (u < t)"

text \<open>
  Modelled from the spec: the structs \<open>types.NamespacedName\<close>, \<open>ServicePortName\<close> and
  \<open>ServiceEndpoint\<close> are declared outside this file. An owning-object key is namespace
  plus name; a service-port identity is the tuple (namespace, name, port name,
  protocol), compared structurally; an entry of the stale list pairs an endpoint's
  identity string with a service-port identity. The protocol is a name, \<open>UDP\<close> for UDP.
\<close>

record NamespacedName =
  Namespace :: string
  Name :: string

type_synonym Protocol = string

definition ProtocolUDP :: Protocol where
  "ProtocolUDP = ''UDP''"

record ServicePortName =
  NamespacedName :: NamespacedName
  Port :: string
  Protocol :: Protocol

record ServiceEndpoint =
  Endpoint :: string
  ServicePortName :: ServicePortName

text \<open>The struct \<open>BaseEndpointInfo\<close>, field by field.\<close>

record BaseEndpointInfo =
  ip :: string
  port :: int
  endpoint :: string
  isLocal :: bool
  ready :: bool
  serving :: bool
  terminating :: bool
  zoneHints :: "string set"

text \<open>
  The interface \<open>Endpoint\<close> is realised in this file by \<open>BaseEndpointInfo\<close> only; the
  methods below are its accessors.
\<close>

type_synonym Endpoint = BaseEndpointInfo

definition String :: "Endpoint \<Rightarrow> string" where
  "String info = endpoint info"

definition IP :: "Endpoint \<Rightarrow> string" where
  "IP info = ip info"

definition IsLocal :: "Endpoint \<Rightarrow> bool" where
  "IsLocal info = isLocal info"

definition IsReady :: "Endpoint \<Rightarrow> bool" where
  "IsReady info = ready info"

definition IsServing :: "Endpoint \<Rightarrow> bool" where
  "IsServing info = serving info"

text \<open>
  A Go map is kept as an association list whose keys are pairwise different; the list
  order stands for the order in which \<open>range\<close> happens to visit the entries, which Go
  leaves open. \<open>keysDistinct\<close> is the well-formedness of such a list. Reading a map at a
  key it does not hold gives the zero value of the element type: for a slice, the
  empty slice.
\<close>

type_synonym EndpointsMap = "(ServicePortName \<times> Endpoint list) list"

definition keysDistinct :: "('k \<times> 'v) list \<Rightarrow> bool" where
  "keysDistinct m = distinct (map fst m)"

definition mapIndex :: "('k \<times> 'v list) list \<Rightarrow> 'k \<Rightarrow> 'v list" where
  "mapIndex m k = (case map_of m k of None \<Rightarrow> [] | Some v \<Rightarrow> v)"

text \<open>
  Calls of the logger are recorded in the order they are made: \<open>InfoS v msg\<close> is
  \<open>klog.V(v).InfoS(msg, ...)\<close> (\<open>klog.InfoS\<close> is verbosity 0) and \<open>ErrorS msg\<close> is
  \<open>klog.ErrorS(err, msg, ...)\<close>. The key/value arguments of a call are not kept.
\<close>

datatype LogCall = InfoS nat string | ErrorS string

text \<open>
  The run-time panics of this file: reading a field through a nil pointer, and
  assigning to an entry of a nil map. A panic ends the call; what it returns then is
  the panic.
\<close>

datatype panic = NilPointerDereference | AssignmentToEntryInNilMap

section \<open>detectStaleConntrackEntries\<close>

text \<open>
  The innermost loop of the first half: \<open>deleted\<close> starts true and is cleared by the
  first entry of the new list with the same \<open>String()\<close> and the same \<open>IsServing()\<close>.
\<close>

fun deleted :: "Endpoint list \<Rightarrow> Endpoint \<Rightarrow> bool" where
  "deleted [] ep = True"
| "deleted (n # ns) ep =
     (if String n = String ep \<and> IsServing n = IsServing ep then False else deleted ns ep)"

text \<open>The loop over one old endpoint list, appending to \<open>*deletedUDPEndpoints\<close>.\<close>

fun staleEndpoints ::
  "EndpointsMap \<Rightarrow> ServicePortName \<Rightarrow> Endpoint list \<Rightarrow>
   ServiceEndpoint list \<times> LogCall list \<Rightarrow> ServiceEndpoint list \<times> LogCall list" where
  "staleEndpoints newEndpointsMap svcPortName [] acc = acc"
| "staleEndpoints newEndpointsMap svcPortName (ep # epList) (deletedUDPEndpoints, klog) =
     (if \<not> IsServing ep then
        staleEndpoints newEndpointsMap svcPortName epList (deletedUDPEndpoints, klog)
      else if deleted (mapIndex newEndpointsMap svcPortName) ep then
        staleEndpoints newEndpointsMap svcPortName epList
          (deletedUDPEndpoints @ [\<lparr>Endpoint = String ep, ServicePortName = svcPortName\<rparr>],
           klog @ [InfoS 4 ''Deleted endpoint may have stale conntrack entries''])
      else staleEndpoints newEndpointsMap svcPortName epList (deletedUDPEndpoints, klog))"

text \<open>The loop over the old map.\<close>

fun staleServices ::
  "EndpointsMap \<Rightarrow> EndpointsMap \<Rightarrow>
   ServiceEndpoint list \<times> LogCall list \<Rightarrow> ServiceEndpoint list \<times> LogCall list" where
  "staleServices newEndpointsMap [] acc = acc"
| "staleServices newEndpointsMap ((svcPortName, epList) # rest) acc =
     (if Protocol svcPortName \<noteq> ProtocolUDP then staleServices newEndpointsMap rest acc
      else staleServices newEndpointsMap rest
             (staleEndpoints newEndpointsMap svcPortName epList acc))"

text \<open>The two counting loops of the second half: \<open>epServing++\<close> for each serving entry.\<close>

fun countServing :: "Endpoint list \<Rightarrow> nat \<Rightarrow> nat" where
  "countServing [] n = n"
| "countServing (ep # epList) n =
     (if IsServing ep then countServing epList (n + 1) else countServing epList n)"

text \<open>The loop over the new map, appending to \<open>*newlyActiveUDPServices\<close>.\<close>

fun newlyActive ::
  "EndpointsMap \<Rightarrow> EndpointsMap \<Rightarrow> ServicePortName list \<Rightarrow> ServicePortName list" where
  "newlyActive oldEndpointsMap [] newlyActiveUDPServices = newlyActiveUDPServices"
| "newlyActive oldEndpointsMap ((svcPortName, epList) # rest) newlyActiveUDPServices =
     (if Protocol svcPortName \<noteq> ProtocolUDP then
        newlyActive oldEndpointsMap rest newlyActiveUDPServices
      else
        (let epServing = countServing epList 0;
             oldEpServing = countServing (mapIndex oldEndpointsMap svcPortName) 0
         in if epServing > 0 \<and> oldEpServing = 0 then
              newlyActive oldEndpointsMap rest (newlyActiveUDPServices @ [svcPortName])
            else newlyActive oldEndpointsMap rest newlyActiveUDPServices))"

text \<open>
  The function itself. The two slices it appends to are passed by pointer in the source;
  here they go in and come out, together with the log.
\<close>

definition detectStaleConntrackEntries ::
  "EndpointsMap \<Rightarrow> EndpointsMap \<Rightarrow>
   ServiceEndpoint list \<times> ServicePortName list \<times> LogCall list \<Rightarrow>
   ServiceEndpoint list \<times> ServicePortName list \<times> LogCall list" where
  "detectStaleConntrackEntries oldEndpointsMap newEndpointsMap acc =
     (case acc of (deletedUDPEndpoints, newlyActiveUDPServices, klog) \<Rightarrow>
        (case staleServices newEndpointsMap oldEndpointsMap (deletedUDPEndpoints, klog) of
           (deletedUDPEndpoints', klog') \<Rightarrow>
             (deletedUDPEndpoints',
              newlyActive oldEndpointsMap newEndpointsMap newlyActiveUDPServices,
              klog')))"

section \<open>merge, unmerge and the local ready endpoints\<close>

text \<open>
  The map that \<open>Update\<close>, \<open>merge\<close> and \<open>unmerge\<close> are called on is written to, so its being
  nil matters: the receiver is \<open>None\<close> for Go's nil map (the zero value of the type) and
  \<open>Some m\<close> for an allocated map with entries \<open>m\<close>. A nil map reads as the empty map, so a
  map that is only read is given by its entries. \<open>entryOf\<close> is the lookup \<open>v, ok := em[k]\<close>.
\<close>

definition entryOf :: "EndpointsMap option \<Rightarrow> ServicePortName \<Rightarrow> Endpoint list option" where
  "entryOf em svcPortName = (case em of None \<Rightarrow> None | Some m \<Rightarrow> map_of m svcPortName)"

text \<open>
  \<open>merge\<close> runs over the keys of \<open>other\<close> and stores \<open>other[svcPortName]\<close> under each; the
  first store into a nil receiver panics, and with no key there is no store.
\<close>

fun mergeKeys ::
  "EndpointsMap \<Rightarrow> ServicePortName list \<Rightarrow> EndpointsMap option \<Rightarrow> panic + EndpointsMap option" where
  "mergeKeys other [] em = Inr em"
| "mergeKeys other (svcPortName # rest) em =
     (case em of
        None \<Rightarrow> Inl AssignmentToEntryInNilMap
      | Some m \<Rightarrow>
          mergeKeys other rest
            (Some (AList.update svcPortName (mapIndex other svcPortName) m)))"

definition merge :: "EndpointsMap option \<Rightarrow> EndpointsMap \<Rightarrow> panic + EndpointsMap option" where
  "merge em other = mergeKeys other (map fst other) em"

text \<open>
  \<open>unmerge\<close> deletes every key of \<open>other\<close> from the receiver; \<open>delete\<close> on a nil map does
  nothing.
\<close>

definition unmerge :: "EndpointsMap option \<Rightarrow> EndpointsMap \<Rightarrow> EndpointsMap option" where
  "unmerge em other =
     fold (\<lambda>svcPortName em. map_option (AList.delete svcPortName) em) (map fst other) em"

text \<open>
  \<open>getLocalReadyEndpointIPs\<close>: the inner loop over one endpoint list, then the loop over
  the map. \<open>localIPs\<close> is a map from the service's name to a set of IP strings; an absent
  key is Go's nil set, allocated on first use.
\<close>

fun localReadyOfList ::
  "ServicePortName \<Rightarrow> Endpoint list \<Rightarrow> (NamespacedName \<rightharpoonup> string set) \<Rightarrow>
   (NamespacedName \<rightharpoonup> string set)" where
  "localReadyOfList svcPortName [] localIPs = localIPs"
| "localReadyOfList svcPortName (ep # epList) localIPs =
     (if \<not> IsReady ep then localReadyOfList svcPortName epList localIPs
      else if IsLocal ep then
        (let nsn = NamespacedName svcPortName;
             ips = (case localIPs nsn of None \<Rightarrow> {} | Some s \<Rightarrow> s)
         in localReadyOfList svcPortName epList (localIPs(nsn \<mapsto> insert (IP ep) ips)))
      else localReadyOfList svcPortName epList localIPs)"

definition getLocalReadyEndpointIPs :: "EndpointsMap \<Rightarrow> (NamespacedName \<rightharpoonup> string set)" where
  "getLocalReadyEndpointIPs em =
     fold (\<lambda>(svcPortName, epList) localIPs. localReadyOfList svcPortName epList localIPs)
       em Map.empty"

text \<open>
  \<open>LocalReadyEndpoints\<close> stores \<open>len(ips)\<close> under every key of \<open>localIPs\<close>; each key is
  written once, so the loop is the pointwise image.
\<close>

definition LocalReadyEndpoints :: "EndpointsMap \<Rightarrow> (NamespacedName \<rightharpoonup> nat)" where
  "LocalReadyEndpoints em = (\<lambda>nsn. map_option card (getLocalReadyEndpointIPs em nsn))"

section \<open>The change tracker\<close>

text \<open>
  The tracker's fields. The mutex is left out: calls are modelled one at a time. The
  slice cache is code outside this file and is kept as a value of an arbitrary type
  \<open>'c\<close>; the optional callback acts on state \<open>'o\<close> of its owner and, as its comment
  requires, leaves the two maps it is shown untouched.
\<close>

record endpointsChange =
  previous :: EndpointsMap
  current :: EndpointsMap

record ('c, 'o) EndpointsChangeTracker =
  processEndpointsMapChange :: "(EndpointsMap \<Rightarrow> EndpointsMap \<Rightarrow> 'o \<Rightarrow> 'o) option"
  endpointSliceCache :: 'c
  lastChangeTriggerTimes :: "NamespacedName \<rightharpoonup> Time list"
  trackerStartTime :: Time

text \<open>
  State of the process outside the tracker: the two metrics of package \<open>metrics\<close>, the
  log, and the state the callback works on.
\<close>

record 'o Globals =
  EndpointChangesTotal :: nat
  EndpointChangesPending :: nat
  klog :: "LogCall list"
  observed :: 'o

text \<open>
  Of \<open>discovery.EndpointSlice\<close> this file reads \<open>AddressType\<close> and \<open>Annotations\<close>; what
  else the object holds is the extension of the record.
\<close>

record EndpointSlice =
  AddressType :: string
  Annotations :: "string \<rightharpoonup> string"

text \<open>
  Modelled from the spec: the supported set of address types is (IPv4, IPv6); the two
  constants are declared in the discovery API, outside this file.
\<close>

definition AddressTypeIPv4 :: string where
  "AddressTypeIPv4 = ''IPv4''"

definition AddressTypeIPv6 :: string where
  "AddressTypeIPv6 = ''IPv6''"

definition supportedEndpointSliceAddressTypes :: "string set" where
  "supportedEndpointSliceAddressTypes = {AddressTypeIPv4, AddressTypeIPv6}"

text \<open>The layout \<open>time.RFC3339Nano\<close> of Go's standard library.\<close>

definition RFC3339Nano :: string where
  "RFC3339Nano = ''2006-01-02T15:04:05.999999999Z07:00''"

text \<open>
  What this file calls and does not define, taken as parameters:
  \<^item> \<open>endpointSliceCacheKeys\<close> returns the owning service's name and the slice's name, or
    an error;
  \<^item> \<open>updatePending\<close> and \<open>cacheCheckoutChanges\<close> are the slice cache's \<open>updatePending\<close> and
    \<open>checkoutChanges\<close>, acting on the cache's state;
  \<^item> \<open>time_Parse\<close> is \<open>time.Parse\<close>, returning an error or an instant;
  \<^item> \<open>EndpointsLastChangeTriggerTime\<close> is the annotation key of that name.
\<close>

record ('c, 'x) Externals =
  endpointSliceCacheKeys ::
    "'x EndpointSlice_scheme \<Rightarrow> string + (NamespacedName \<times> NamespacedName)"
  updatePending :: "'c \<Rightarrow> 'x EndpointSlice_scheme \<Rightarrow> bool \<Rightarrow> bool \<times> 'c"
  cacheCheckoutChanges :: "'c \<Rightarrow> (NamespacedName \<times> endpointsChange) list \<times> 'c"
  time_Parse :: "string \<Rightarrow> string \<Rightarrow> string + Time"
  EndpointsLastChangeTriggerTime :: string

text \<open>
  \<open>getLastChangeTriggerTime\<close>. On a parse error \<open>time.Parse\<close> hands back the zero instant
  with the error, which is what the source returns after logging.
\<close>

definition getLastChangeTriggerTime ::
  "('c, 'x) Externals \<Rightarrow> (string \<rightharpoonup> string) \<Rightarrow> LogCall list \<Rightarrow> Time \<times> LogCall list" where
  "getLastChangeTriggerTime ext annotations log =
     (case annotations (EndpointsLastChangeTriggerTime ext) of
        None \<Rightarrow> (zeroTime, log)
      | Some s \<Rightarrow>
          (case time_Parse ext RFC3339Nano s of
             Inl err \<Rightarrow>
               (zeroTime,
                log @ [ErrorS ''Error while parsing EndpointsLastChangeTriggerTimeAnnotation''])
           | Inr val \<Rightarrow> (val, log)))"

text \<open>
  \<open>EndpointSliceUpdate\<close>. The slice arrives by pointer: \<open>None\<close> is the nil pointer. The
  first statement reads \<open>endpointSlice.AddressType\<close>, which on a nil pointer is a run-time
  panic; the nil test of the source comes after it and is kept in its place.
\<close>

definition EndpointSliceUpdate ::
  "('c, 'x) Externals \<Rightarrow> ('c, 'o) EndpointsChangeTracker \<Rightarrow>
   'x EndpointSlice_scheme option \<Rightarrow> bool \<Rightarrow> 'o Globals \<Rightarrow>
   panic + (bool \<times> ('c, 'o) EndpointsChangeTracker \<times> 'o Globals)" where
  "EndpointSliceUpdate ext ect endpointSlice removeSlice g =
     (case endpointSlice of
        None \<Rightarrow> Inl NilPointerDereference
      | Some es \<Rightarrow>
          if AddressType es \<notin> supportedEndpointSliceAddressTypes then
            Inr (False, ect,
                 g\<lparr>klog := klog g @
                      [InfoS 4 ''EndpointSlice address type not supported by kube-proxy'']\<rparr>)
          else if endpointSlice = None then
            Inr (False, ect,
                 g\<lparr>klog := klog g @ [ErrorS ''Nil endpointSlice passed to EndpointSliceUpdate'']\<rparr>)
          else
            (case endpointSliceCacheKeys ext es of
               Inl err \<Rightarrow>
                 Inr (False, ect,
                      g\<lparr>klog := klog g @ [InfoS 0 ''Error getting endpoint slice cache keys'']\<rparr>)
             | Inr (namespacedName, sliceName) \<Rightarrow>
                 (let g1 = g\<lparr>EndpointChangesTotal := EndpointChangesTotal g + 1\<rparr> in
                  case updatePending ext (endpointSliceCache ect) es removeSlice of
                    (changeNeeded, cache') \<Rightarrow>
                      (let ect1 = ect\<lparr>endpointSliceCache := cache'\<rparr> in
                       if changeNeeded then
                         (let g2 = g1\<lparr>EndpointChangesPending := EndpointChangesPending g1 + 1\<rparr> in
                          if removeSlice then
                            Inr (changeNeeded,
                                 ect1\<lparr>lastChangeTriggerTimes :=
                                        (lastChangeTriggerTimes ect1)(namespacedName := None)\<rparr>,
                                 g2)
                          else
                            (case getLastChangeTriggerTime ext (Annotations es) (klog g2) of
                               (t, log') \<Rightarrow>
                                 if \<not> IsZero t \<and> After t (trackerStartTime ect1) then
                                   Inr (changeNeeded,
                                        ect1\<lparr>lastChangeTriggerTimes :=
                                          (lastChangeTriggerTimes ect1)(namespacedName \<mapsto>
                                             (case lastChangeTriggerTimes ect1 namespacedName of
                                                None \<Rightarrow> [] | Some ts \<Rightarrow> ts) @ [t])\<rparr>,
                                        g2\<lparr>klog := log'\<rparr>)
                                 else Inr (changeNeeded, ect1, g2\<lparr>klog := log'\<rparr>)))
                       else Inr (changeNeeded, ect1, g1)))))"

text \<open>\<open>checkoutChanges\<close> of the tracker: the gauge is set to 0, the cache is emptied.\<close>

definition checkoutChanges ::
  "('c, 'x) Externals \<Rightarrow> ('c, 'o) EndpointsChangeTracker \<Rightarrow> 'o Globals \<Rightarrow>
   (NamespacedName \<times> endpointsChange) list \<times> ('c, 'o) EndpointsChangeTracker \<times> 'o Globals" where
  "checkoutChanges ext ect g =
     (case cacheCheckoutChanges ext (endpointSliceCache ect) of
        (changes, cache') \<Rightarrow>
          (changes, ect\<lparr>endpointSliceCache := cache'\<rparr>, g\<lparr>EndpointChangesPending := 0\<rparr>))"

text \<open>
  \<open>checkoutTriggerTimes\<close>: every key of the tracker's buffer is written once into the
  caller's map (stored when new, appended to what is there otherwise), then the buffer
  is replaced by an empty map.
\<close>

definition checkoutTriggerTimes ::
  "('c, 'o) EndpointsChangeTracker \<Rightarrow> (NamespacedName \<rightharpoonup> Time list) \<Rightarrow>
   ('c, 'o) EndpointsChangeTracker \<times> (NamespacedName \<rightharpoonup> Time list)" where
  "checkoutTriggerTimes ect triggerTimes =
     (ect\<lparr>lastChangeTriggerTimes := Map.empty\<rparr>,
      (\<lambda>k. case lastChangeTriggerTimes ect k of
              None \<Rightarrow> triggerTimes k
            | Some v \<Rightarrow> (case triggerTimes k of None \<Rightarrow> Some v | Some prev \<Rightarrow> Some (prev @ v))))"

section \<open>Update\<close>

record UpdateEndpointsMapResult =
  UpdatedServices :: "NamespacedName set"
  DeletedUDPEndpoints :: "ServiceEndpoint list"
  NewlyActiveUDPServices :: "ServicePortName list"
  LastChangeTriggerTimes :: "NamespacedName \<rightharpoonup> Time list"

text \<open>
  The loop of \<open>Update\<close> over the checked-out changes, in the order \<open>range\<close> yields them. A
  panic of \<open>merge\<close> ends the loop and the call.
\<close>

fun applyChanges ::
  "(EndpointsMap \<Rightarrow> EndpointsMap \<Rightarrow> 'o \<Rightarrow> 'o) option \<Rightarrow> (NamespacedName \<times> endpointsChange) list \<Rightarrow>
   EndpointsMap option \<times> UpdateEndpointsMapResult \<times> 'o Globals \<Rightarrow>
   panic + (EndpointsMap option \<times> UpdateEndpointsMapResult \<times> 'o Globals)" where
  "applyChanges callback [] st = Inr st"
| "applyChanges callback ((nn, change) # changes) (em, result, g) =
     (let g1 = (case callback of
                  None \<Rightarrow> g
                | Some f \<Rightarrow> g\<lparr>observed := f (previous change) (current change) (observed g)\<rparr>);
          result1 = result\<lparr>UpdatedServices := insert nn (UpdatedServices result)\<rparr>;
          em1 = unmerge em (previous change)
      in case merge em1 (current change) of
           Inl p \<Rightarrow> Inl p
         | Inr em2 \<Rightarrow>
             (case detectStaleConntrackEntries (previous change) (current change)
                     (DeletedUDPEndpoints result1, NewlyActiveUDPServices result1, klog g1) of
                (deletedUDPEndpoints, newlyActiveUDPServices, log') \<Rightarrow>
                  applyChanges callback changes
                    (em2,
                     result1\<lparr>DeletedUDPEndpoints := deletedUDPEndpoints,
                             NewlyActiveUDPServices := newlyActiveUDPServices\<rparr>,
                     g1\<lparr>klog := log'\<rparr>)))"

text \<open>
  \<open>Update\<close>. The tracker arrives by pointer (\<open>None\<close> is nil). A call that returns gives the
  returned struct, the map after the call, the tracker after the call and the process
  state; a call that panics gives the panic.
\<close>

definition Update ::
  "('c, 'x) Externals \<Rightarrow> EndpointsMap option \<Rightarrow> ('c, 'o) EndpointsChangeTracker option \<Rightarrow>
   'o Globals \<Rightarrow>
   panic + (UpdateEndpointsMapResult \<times> EndpointsMap option \<times>
            ('c, 'o) EndpointsChangeTracker option \<times> 'o Globals)" where
  "Update ext em ect g =
     (let result = \<lparr>UpdatedServices = {}, DeletedUDPEndpoints = [],
                    NewlyActiveUDPServices = [], LastChangeTriggerTimes = Map.empty\<rparr>
      in case ect of
           None \<Rightarrow> Inr (result, em, None, g)
         | Some tr \<Rightarrow>
             (case checkoutChanges ext tr g of
                (changes, tr1, g1) \<Rightarrow>
                  (case applyChanges (processEndpointsMapChange tr1) changes (em, result, g1) of
                     Inl p \<Rightarrow> Inl p
                   | Inr (em', result', g2) \<Rightarrow>
                       (case checkoutTriggerTimes tr1 (LastChangeTriggerTimes result') of
                          (tr2, triggerTimes) \<Rightarrow>
                            Inr (result'\<lparr>LastChangeTriggerTimes := triggerTimes\<rparr>, em',
                                 Some tr2, g2)))))"

text \<open>What a call of \<open>Update\<close> leaves as the map: the map after the call, or the panic.\<close>

definition returnedMap ::
  "panic + (UpdateEndpointsMapResult \<times> EndpointsMap option \<times> 'r) \<Rightarrow> panic + EndpointsMap option" where
  "returnedMap r = (case r of Inl p \<Rightarrow> Inl p | Inr (result, em, rest) \<Rightarrow> Inr em)"

section \<open>Closed forms of the detector's loops\<close>

text \<open>
  What the loops of the detector append, written without accumulators: the stale list
  of one endpoint list, of a whole old map, and the newly active list of a new map.
  They are shown equal to the loops below and are used only in proofs.
\<close>

definition staleOf :: "EndpointsMap \<Rightarrow> ServicePortName \<Rightarrow> Endpoint list \<Rightarrow> ServiceEndpoint list" where
  "staleOf new k eps =
     map (\<lambda>ep. \<lparr>Endpoint = String ep, ServicePortName = k\<rparr>)
       (filter (\<lambda>ep. IsServing ep \<and> deleted (mapIndex new k) ep) eps)"

definition staleAll :: "EndpointsMap \<Rightarrow> EndpointsMap \<Rightarrow> ServiceEndpoint list" where
  "staleAll new old =
     concat (map (\<lambda>(k, eps). if Protocol k \<noteq> ProtocolUDP then [] else staleOf new k eps) old)"

definition activeAll :: "EndpointsMap \<Rightarrow> EndpointsMap \<Rightarrow> ServicePortName list" where
  "activeAll old new =
     map fst (filter (\<lambda>(k, eps). Protocol k = ProtocolUDP \<and>
        0 < length (filter IsServing eps) \<and>
        length (filter IsServing (mapIndex old k)) = 0) new)"

text \<open>
  The IP strings of the ready and local endpoints of one list, and of all lists that a
  map holds for the ports of one service; \<open>ipsAt\<close> reads a map of sets with the nil set
  as the empty set.
\<close>

definition readyLocalIPs :: "Endpoint list \<Rightarrow> string set" where
  "readyLocalIPs epList = set (map IP (filter (\<lambda>ep. IsReady ep \<and> IsLocal ep) epList))"

definition localReadyIPsOf :: "EndpointsMap \<Rightarrow> NamespacedName \<Rightarrow> string set" where
  "localReadyIPsOf em nsn =
     readyLocalIPs (concat (map snd (filter (\<lambda>(svcPortName, epList). NamespacedName svcPortName = nsn) em)))"

definition ipsAt :: "(NamespacedName \<rightharpoonup> string set) \<Rightarrow> NamespacedName \<Rightarrow> string set" where
  "ipsAt localIPs nsn = (case localIPs nsn of None \<Rightarrow> {} | Some s \<Rightarrow> s)"

section \<open>The rejection of an unsupported address type, as the spec words it\<close>

text \<open>
  The spec's sentence on an update with an unsupported address type, read on the result
  of \<open>EndpointSliceUpdate\<close>: the call returns false, the tracker is as before, a log call
  was made, and one of the two metrics has moved, which is what counted means here.
\<close>

definition rejectedAndCounted ::
  "('c, 'x) Externals \<Rightarrow> ('c, 'o) EndpointsChangeTracker \<Rightarrow> 'x EndpointSlice_scheme \<Rightarrow> bool \<Rightarrow>
   'o Globals \<Rightarrow> bool" where
  "rejectedAndCounted ext ect es removeSlice g =
     (case EndpointSliceUpdate ext ect (Some es) removeSlice g of
        Inl p \<Rightarrow> False
      | Inr (changed, ect', g') \<Rightarrow>
          \<not> changed \<and> ect' = ect \<and> klog g' \<noteq> klog g \<and>
          (EndpointChangesTotal g' \<noteq> EndpointChangesTotal g \<or>
           EndpointChangesPending g' \<noteq> EndpointChangesPending g))"

section \<open>Example values\<close>

text \<open>Concrete identities and endpoints at which the theorems are instantiated.\<close>

definition nsSvcA :: NamespacedName where
  "nsSvcA = \<lparr>Namespace = ''ns'', Name = ''svcA''\<rparr>"

definition svcA_UDP :: ServicePortName where
  "svcA_UDP = \<lparr>NamespacedName = nsSvcA, Port = ''dns'', Protocol = ''UDP''\<rparr>"

definition svcA_TCP :: ServicePortName where
  "svcA_TCP = \<lparr>NamespacedName = nsSvcA, Port = ''dns-tcp'', Protocol = ''TCP''\<rparr>"

definition epX :: Endpoint where
  "epX = \<lparr>ip = ''10.0.0.1'', port = 53, endpoint = ''10.0.0.1:53'', isLocal = True,
          ready = True, serving = True, terminating = False, zoneHints = {}\<rparr>"

definition epY :: Endpoint where
  "epY = \<lparr>ip = ''10.0.0.2'', port = 53, endpoint = ''10.0.0.2:53'', isLocal = False,
          ready = True, serving = True, terminating = False, zoneHints = {}\<rparr>"

definition mapX :: EndpointsMap where
  "mapX = [(svcA_UDP, [epY])]"

text \<open>
  A stand-in for the code outside this file: a cache that is the list of pending
  changes and hands it out whole, an \<open>updatePending\<close> that always reports a change, keys
  that name service \<open>ns/svcA\<close>, and a parser that knows two timestamps, 250 and 50 units
  after the zero instant.
\<close>

definition examplePending :: "((NamespacedName \<times> endpointsChange) list, unit) Externals" where
  "examplePending =
     \<lparr>endpointSliceCacheKeys =
        (\<lambda>es. Inr (nsSvcA, \<lparr>Namespace = ''ns'', Name = ''svcA-slice1''\<rparr>)),
      updatePending = (\<lambda>cache es removeSlice. (True, cache)),
      cacheCheckoutChanges = (\<lambda>cache. (cache, [])),
      time_Parse =
        (\<lambda>layout v. if v = ''T+250'' then Inr 250 else if v = ''T+50'' then Inr 50
                      else Inl ''cannot parse''),
      EndpointsLastChangeTriggerTime = ''endpoints.kubernetes.io/last-change-trigger-time''\<rparr>"

definition trackerWith ::
  "(NamespacedName \<times> endpointsChange) list \<Rightarrow>
   ((NamespacedName \<times> endpointsChange) list, unit) EndpointsChangeTracker" where
  "trackerWith pending =
     \<lparr>processEndpointsMapChange = None, endpointSliceCache = pending,
      lastChangeTriggerTimes = [nsSvcA \<mapsto> [150]], trackerStartTime = 100\<rparr>"

definition globals0 :: "unit Globals" where
  "globals0 = \<lparr>EndpointChangesTotal = 0, EndpointChangesPending = 0, klog = [], observed = ()\<rparr>"

definition sliceWith :: "string \<Rightarrow> string option \<Rightarrow> EndpointSlice" where
  "sliceWith addressType trigger =
     \<lparr>AddressType = addressType,
      Annotations = (\<lambda>key. if key = ''endpoints.kubernetes.io/last-change-trigger-time''
                            then trigger else None)\<rparr>"

section \<open>Facts about the detector\<close>

lemma deleted_iff:
  "deleted ns ep \<longleftrightarrow> \<not> (\<exists>n \<in> set ns. String n = String ep \<and> IsServing n = IsServing ep)"
  by (induction ns) auto

lemma staleEndpoints_fst:
  "fst (staleEndpoints new k eps (d, l)) = d @ staleOf new k eps"
  by (induction eps arbitrary: d l) (auto simp: staleOf_def)

lemma staleServices_fst:
  "fst (staleServices new old (d, l)) = d @ staleAll new old"
proof (induction old arbitrary: d l)
  case Nil
  then show ?case by (simp add: staleAll_def)
next
  case (Cons a old)
  obtain k eps where a: "a = (k, eps)" by (cases a)
  show ?case
  proof (cases "Protocol k \<noteq> ProtocolUDP")
    case True
    then show ?thesis using Cons.IH a by (simp add: staleAll_def)
  next
    case False
    obtain d' l' where s: "staleEndpoints new k eps (d, l) = (d', l')"
      by (cases "staleEndpoints new k eps (d, l)")
    have "d' = d @ staleOf new k eps"
      using staleEndpoints_fst[of new k eps d l] s by simp
    then show ?thesis using False Cons.IH[of d' l'] a s by (simp add: staleAll_def)
  qed
qed

lemma detect_deleted:
  "fst (detectStaleConntrackEntries old new (d, n, l)) = d @ staleAll new old"
proof -
  obtain d' l' where s: "staleServices new old (d, l) = (d', l')"
    by (cases "staleServices new old (d, l)")
  then show ?thesis
    using staleServices_fst[of new old d l]
    by (simp add: detectStaleConntrackEntries_def)
qed

lemma staleAll_member:
  "se \<in> set (staleAll new old) \<longleftrightarrow>
     (\<exists>k eps ep. (k, eps) \<in> set old \<and> Protocol k = ProtocolUDP \<and> ep \<in> set eps \<and>
        IsServing ep \<and> deleted (mapIndex new k) ep \<and>
        se = \<lparr>Endpoint = String ep, ServicePortName = k\<rparr>)"
  by (fastforce simp: staleAll_def staleOf_def split: if_splits)

lemma countServing_eq: "countServing eps n = n + length (filter IsServing eps)"
  by (induction eps arbitrary: n) auto

lemma newlyActive_eq: "newlyActive old new n = n @ activeAll old new"
proof (induction new arbitrary: n)
  case Nil
  then show ?case by (simp add: activeAll_def)
next
  case (Cons a new)
  obtain k eps where a: "a = (k, eps)" by (cases a)
  show ?case using Cons.IH a
    by (simp add: activeAll_def countServing_eq Let_def)
qed

lemma detect_newly:
  "fst (snd (detectStaleConntrackEntries old new (d, n, l))) = n @ activeAll old new"
  by (simp add: detectStaleConntrackEntries_def newlyActive_eq split: prod.splits)

lemma keysDistinct_map_of:
  "keysDistinct m \<Longrightarrow> map_of m k = Some v \<longleftrightarrow> (k, v) \<in> set m"
  by (auto simp: keysDistinct_def dest: map_of_SomeD)

lemma activeAll_member:
  "keysDistinct new \<Longrightarrow>
   k \<in> set (activeAll old new) \<longleftrightarrow>
     Protocol k = ProtocolUDP \<and> map_of new k \<noteq> None \<and>
     0 < length (filter IsServing (mapIndex new k)) \<and>
     length (filter IsServing (mapIndex old k)) = 0"
proof
  assume d: "keysDistinct new" and "k \<in> set (activeAll old new)"
  then obtain eps where e: "(k, eps) \<in> set new" "Protocol k = ProtocolUDP"
      "0 < length (filter IsServing eps)" "length (filter IsServing (mapIndex old k)) = 0"
    by (auto simp: activeAll_def)
  have "map_of new k = Some eps" using d e(1) by (simp add: keysDistinct_map_of)
  then show "Protocol k = ProtocolUDP \<and> map_of new k \<noteq> None \<and>
     0 < length (filter IsServing (mapIndex new k)) \<and>
     length (filter IsServing (mapIndex old k)) = 0"
    using e by (simp add: mapIndex_def)
next
  assume d: "keysDistinct new" and h: "Protocol k = ProtocolUDP \<and> map_of new k \<noteq> None \<and>
     0 < length (filter IsServing (mapIndex new k)) \<and>
     length (filter IsServing (mapIndex old k)) = 0"
  then obtain eps where m: "map_of new k = Some eps" by auto
  then have "(k, eps) \<in> set new" by (rule map_of_SomeD)
  moreover have "mapIndex new k = eps" using m by (simp add: mapIndex_def)
  ultimately show "k \<in> set (activeAll old new)"
    using h by (force simp: activeAll_def)
qed

section \<open>Facts about merge, unmerge and Update\<close>

lemma map_of_fold_delete:
  "map_of (fold (\<lambda>k em. AList.delete k em) ks em) k =
     (if k \<in> set ks then None else map_of em k)"
  by (induction ks arbitrary: em) (auto simp: delete_conv')

lemma map_of_fold_update:
  "map_of (fold (\<lambda>k em. AList.update k (f k) em) ks em) k =
     (if k \<in> set ks then Some (f k) else map_of em k)"
  by (induction ks arbitrary: em) (auto simp: update_conv')

lemma unmerge_None: "unmerge None other = None"
proof -
  have "fold (\<lambda>k em. map_option (AList.delete k) em) ks None = None"
    for ks :: "ServicePortName list"
    by (induction ks) simp_all
  then show ?thesis by (simp add: unmerge_def)
qed

lemma unmerge_Some:
  "unmerge (Some m) other = Some (fold (\<lambda>k em. AList.delete k em) (map fst other) m)"
proof -
  have "fold (\<lambda>k em. map_option (AList.delete k) em) ks (Some m) =
        Some (fold (\<lambda>k em. AList.delete k em) ks m)" for ks
    by (induction ks arbitrary: m) simp_all
  then show ?thesis by (simp add: unmerge_def)
qed

lemma entryOf_unmerge:
  "entryOf (unmerge em other) k = (if map_of other k \<noteq> None then None else entryOf em k)"
proof (cases em)
  case None
  then show ?thesis by (simp add: unmerge_None entryOf_def)
next
  case (Some m)
  then show ?thesis
    by (simp add: unmerge_Some entryOf_def map_of_fold_delete map_of_eq_None_iff)
qed

lemma unmerge_allocated: "unmerge em other = None \<longleftrightarrow> em = None"
  by (cases em) (simp_all add: unmerge_None unmerge_Some)

lemma mergeKeys_Some:
  "mergeKeys other ks (Some m) =
     Inr (Some (fold (\<lambda>k em. AList.update k (mapIndex other k) em) ks m))"
  by (induction ks arbitrary: m) simp_all

lemma merge_Some:
  "merge (Some m) other =
     Inr (Some (fold (\<lambda>k em. AList.update k (mapIndex other k) em) (map fst other) m))"
  by (simp add: merge_def mergeKeys_Some)

lemma merge_None:
  "merge None other = (if other = [] then Inr None else Inl AssignmentToEntryInNilMap)"
  by (cases other) (simp_all add: merge_def)

lemma map_of_merged:
  "map_of (fold (\<lambda>k em. AList.update k (mapIndex other k) em) (map fst other) m) k =
     (if map_of other k \<noteq> None then map_of other k else map_of m k)"
proof (cases "map_of other k")
  case None
  then have "k \<notin> set (map fst other)" by (simp add: map_of_eq_None_iff)
  then show ?thesis using None by (simp add: map_of_fold_update)
next
  case (Some v)
  then have "k \<in> set (map fst other)" by (auto dest: map_of_SomeD intro: rev_image_eqI)
  then show ?thesis using Some by (simp add: map_of_fold_update mapIndex_def)
qed

lemma merge_returns:
  assumes "em \<noteq> None \<or> other = []"
  shows "\<exists>em'. merge em other = Inr em' \<and> (em' = None \<longleftrightarrow> em = None) \<and>
           (\<forall>k. entryOf em' k =
                  (if map_of other k \<noteq> None then map_of other k else entryOf em k))"
proof (cases em)
  case None
  with assms have "other = []" by simp
  then show ?thesis using None by (simp add: merge_None)
next
  case (Some m)
  then show ?thesis by (simp add: merge_Some entryOf_def map_of_merged)
qed

lemma Update_single:
  assumes "cacheCheckoutChanges ext (endpointSliceCache ect) = ([(nn, change)], cache')"
      and "merge (unmerge em (previous change)) (current change) = Inr em'"
  shows "returnedMap (Update ext em (Some ect) g) = Inr em'"
  using assms
  by (simp add: returnedMap_def Update_def checkoutChanges_def checkoutTriggerTimes_def Let_def
      split: prod.splits)

lemma Update_single_panics:
  assumes "cacheCheckoutChanges ext (endpointSliceCache ect) = ([(nn, change)], cache')"
      and "merge (unmerge em (previous change)) (current change) = Inl p"
  shows "Update ext em (Some ect) g = Inl p"
  using assms
  by (simp add: Update_def checkoutChanges_def Let_def split: prod.splits)

lemma Update_none:
  assumes "cacheCheckoutChanges ext (endpointSliceCache ect) = ([], cache')"
  shows "returnedMap (Update ext em (Some ect) g) = Inr em"
  using assms
  by (simp add: returnedMap_def Update_def checkoutChanges_def checkoutTriggerTimes_def Let_def
      split: prod.splits)

lemma Update_single_returns:
  assumes "cacheCheckoutChanges ext (endpointSliceCache ect) = ([(nn, change)], cache')"
      and "em \<noteq> None \<or> current change = []"
  shows "\<exists>em'. returnedMap (Update ext em (Some ect) g) = Inr em' \<and>
           (em' = None \<longleftrightarrow> em = None) \<and>
           (\<forall>k. entryOf em' k =
                  (if map_of (current change) k \<noteq> None then map_of (current change) k
                   else if map_of (previous change) k \<noteq> None then None
                   else entryOf em k))"
proof -
  have "unmerge em (previous change) \<noteq> None \<or> current change = []"
    using assms(2) by (simp add: unmerge_allocated)
  from merge_returns[OF this] obtain em' where
    x: "merge (unmerge em (previous change)) (current change) = Inr em' \<and>
        (em' = None \<longleftrightarrow> unmerge em (previous change) = None) \<and>
        (\<forall>k. entryOf em' k =
                  (if map_of (current change) k \<noteq> None then map_of (current change) k
                   else entryOf (unmerge em (previous change)) k))" ..
  have r: "returnedMap (Update ext em (Some ect) g) = Inr em'"
    using assms(1) x[THEN conjunct1] by (rule Update_single)
  have a': "em' = None \<longleftrightarrow> em = None"
    using x[THEN conjunct2, THEN conjunct1] by (simp add: unmerge_allocated)
  have e': "\<forall>k. entryOf em' k =
                  (if map_of (current change) k \<noteq> None then map_of (current change) k
                   else if map_of (previous change) k \<noteq> None then None
                   else entryOf em k)"
    using x[THEN conjunct2, THEN conjunct2] by (simp add: entryOf_unmerge)
  show ?thesis
    by (rule exI[of _ em'], intro conjI, rule r, rule a', rule e')
qed

section \<open>Facts about the local ready endpoints\<close>

lemma readyLocalIPs_Nil: "readyLocalIPs [] = {}"
  by (simp add: readyLocalIPs_def)

lemma readyLocalIPs_Cons:
  "readyLocalIPs (ep # eps) =
     (if IsReady ep \<and> IsLocal ep then insert (IP ep) (readyLocalIPs eps) else readyLocalIPs eps)"
  by (simp add: readyLocalIPs_def)

lemma readyLocalIPs_append: "readyLocalIPs (xs @ ys) = readyLocalIPs xs \<union> readyLocalIPs ys"
  by (simp add: readyLocalIPs_def)

lemma localReadyOfList_eq:
  "localReadyOfList k eps acc nsn =
     (if nsn = NamespacedName k \<and> readyLocalIPs eps \<noteq> {}
      then Some (ipsAt acc nsn \<union> readyLocalIPs eps) else acc nsn)"
proof (induction eps arbitrary: acc)
  case Nil
  then show ?case by (simp add: readyLocalIPs_Nil)
next
  case (Cons ep eps)
  show ?case
  proof (cases "IsReady ep \<and> IsLocal ep")
    case False
    then show ?thesis using Cons.IH[of acc] by (auto simp: readyLocalIPs_Cons)
  next
    case True
    let ?acc = "acc(NamespacedName k \<mapsto> insert (IP ep) (ipsAt acc (NamespacedName k)))"
    have step: "localReadyOfList k (ep # eps) acc nsn = localReadyOfList k eps ?acc nsn"
      using True by (simp add: Let_def ipsAt_def)
    show ?thesis
    proof (cases "nsn = NamespacedName k")
      case False
      then show ?thesis unfolding step Cons.IH[of ?acc] by simp
    next
      case same: True
      have "ipsAt ?acc nsn = insert (IP ep) (ipsAt acc nsn)"
        using same by (simp add: ipsAt_def)
      then show ?thesis
        unfolding step Cons.IH[of ?acc] using same True
        by (simp add: readyLocalIPs_Cons)
    qed
  qed
qed

lemma localReadyIPsOf_Nil: "localReadyIPsOf [] nsn = {}"
  by (simp add: localReadyIPsOf_def readyLocalIPs_Nil)

lemma localReadyIPsOf_Cons:
  "localReadyIPsOf ((k, eps) # em) nsn =
     (if NamespacedName k = nsn then readyLocalIPs eps \<union> localReadyIPsOf em nsn
      else localReadyIPsOf em nsn)"
  by (simp add: localReadyIPsOf_def readyLocalIPs_append)

lemma fold_localReady_eq:
  "fold (\<lambda>(svcPortName, epList) localIPs. localReadyOfList svcPortName epList localIPs) em acc nsn =
     (if localReadyIPsOf em nsn \<noteq> {}
      then Some (ipsAt acc nsn \<union> localReadyIPsOf em nsn) else acc nsn)"
proof (induction em arbitrary: acc)
  case Nil
  then show ?case by (simp add: localReadyIPsOf_Nil)
next
  case (Cons a em)
  obtain k eps where a: "a = (k, eps)" by (cases a)
  let ?acc = "localReadyOfList k eps acc"
  have step: "fold (\<lambda>(svcPortName, epList) localIPs. localReadyOfList svcPortName epList localIPs)
                (a # em) acc nsn =
              fold (\<lambda>(svcPortName, epList) localIPs. localReadyOfList svcPortName epList localIPs)
                em ?acc nsn"
    by (simp add: a)
  show ?case
  proof (cases "NamespacedName k = nsn \<and> readyLocalIPs eps \<noteq> {}")
    case False
    then have "?acc nsn = acc nsn" "ipsAt ?acc nsn = ipsAt acc nsn"
      by (auto simp: localReadyOfList_eq ipsAt_def)
    moreover have "localReadyIPsOf (a # em) nsn = localReadyIPsOf em nsn"
      using False by (auto simp: a localReadyIPsOf_Cons)
    ultimately show ?thesis unfolding step Cons.IH[of ?acc] by simp
  next
    case True
    then have "?acc nsn = Some (ipsAt acc nsn \<union> readyLocalIPs eps)"
      by (simp add: localReadyOfList_eq)
    moreover from this have "ipsAt ?acc nsn = ipsAt acc nsn \<union> readyLocalIPs eps"
      by (simp add: ipsAt_def)
    moreover have "localReadyIPsOf (a # em) nsn = readyLocalIPs eps \<union> localReadyIPsOf em nsn"
      using True by (simp add: a localReadyIPsOf_Cons)
    ultimately show ?thesis
      unfolding step Cons.IH[of ?acc] using True by (simp add: Un_assoc)
  qed
qed

lemma getLocalReadyEndpointIPs_eq:
  "getLocalReadyEndpointIPs em nsn =
     (if localReadyIPsOf em nsn \<noteq> {} then Some (localReadyIPsOf em nsn) else None)"
  by (simp add: getLocalReadyEndpointIPs_def fold_localReady_eq ipsAt_def)

lemma LocalReadyEndpoints_eq:
  "LocalReadyEndpoints em nsn =
     (if localReadyIPsOf em nsn \<noteq> {} then Some (card (localReadyIPsOf em nsn)) else None)"
  by (simp add: LocalReadyEndpoints_def getLocalReadyEndpointIPs_eq)

lemma finite_localReadyIPsOf: "finite (localReadyIPsOf em nsn)"
  unfolding localReadyIPsOf_def readyLocalIPs_def by (rule finite_set)

lemma localReadyIPsOf_set:
  "localReadyIPsOf em nsn =
     {IP ep | svcPortName epList ep.
        (svcPortName, epList) \<in> set em \<and> NamespacedName svcPortName = nsn \<and>
        ep \<in> set epList \<and> IsReady ep \<and> IsLocal ep}"
  by (fastforce simp: localReadyIPsOf_def readyLocalIPs_def image_iff)

lemma localReadyIPsOf_map_of:
  assumes "keysDistinct em"
  shows "localReadyIPsOf em nsn =
     {IP ep | svcPortName epList ep.
        map_of em svcPortName = Some epList \<and> NamespacedName svcPortName = nsn \<and>
        ep \<in> set epList \<and> IsReady ep \<and> IsLocal ep}"
  unfolding localReadyIPsOf_set using keysDistinct_map_of[OF assms] by simp

section \<open>Facts about the trigger time\<close>

lemma getLastChangeTriggerTime_cases:
  "getLastChangeTriggerTime ext annotations log =
     (case annotations (EndpointsLastChangeTriggerTime ext) of
        None \<Rightarrow> (zeroTime, log)
      | Some v \<Rightarrow> (case time_Parse ext RFC3339Nano v of
           Inl err \<Rightarrow> (zeroTime, log @ [ErrorS ''Error while parsing EndpointsLastChangeTriggerTimeAnnotation''])
         | Inr t \<Rightarrow> (t, log)))"
  by (simp add: getLastChangeTriggerTime_def)

section \<open>The stale-endpoint output of the detector\<close>

text \<open>
  Claim C1. Let the old map have pairwise different keys, and let the detector run with
  any starting contents of its output slices. What it appends to the stale list is a
  list \<open>emitted\<close> such that: for every UDP identity of the old map and every endpoint of
  its old list that is serving, the pair of that endpoint's identity string and the
  identity is in \<open>emitted\<close> exactly when no endpoint of the new map's list for the identity
  has the same identity string and the same serving value; and every pair in \<open>emitted\<close>
  has a UDP identity and stems from a serving endpoint of that identity's old list, so
  that neither a non-UDP identity nor an endpoint that was not serving is emitted.
\<close>

theorem detectStale_stale_output:
  assumes "keysDistinct oldEndpointsMap"
  shows "\<exists>emitted.
    fst (detectStaleConntrackEntries oldEndpointsMap newEndpointsMap
           (deletedUDPEndpoints, newlyActiveUDPServices, log)) = deletedUDPEndpoints @ emitted \<and>
    (\<forall>svcPortName epList ep.
        map_of oldEndpointsMap svcPortName = Some epList \<and> Protocol svcPortName = ProtocolUDP \<and>
        ep \<in> set epList \<and> IsServing ep \<longrightarrow>
        (\<lparr>Endpoint = String ep, ServicePortName = svcPortName\<rparr> \<in> set emitted \<longleftrightarrow>
         \<not> (\<exists>n \<in> set (mapIndex newEndpointsMap svcPortName).
               String n = String ep \<and> IsServing n = IsServing ep))) \<and>
    (\<forall>se \<in> set emitted.
        Protocol (ServicePortName se) = ProtocolUDP \<and>
        (\<exists>epList ep. map_of oldEndpointsMap (ServicePortName se) = Some epList \<and>
            ep \<in> set epList \<and> IsServing ep \<and> String ep = Endpoint se))"
proof -
  let ?E = "staleAll newEndpointsMap oldEndpointsMap"
  have appended: "fst (detectStaleConntrackEntries oldEndpointsMap newEndpointsMap
           (deletedUDPEndpoints, newlyActiveUDPServices, log)) = deletedUDPEndpoints @ ?E"
    by (rule detect_deleted)
  have serving: "(\<lparr>Endpoint = String ep, ServicePortName = svcPortName\<rparr> \<in> set ?E) \<longleftrightarrow>
        \<not> (\<exists>n \<in> set (mapIndex newEndpointsMap svcPortName).
               String n = String ep \<and> IsServing n = IsServing ep)"
    if h: "map_of oldEndpointsMap svcPortName = Some epList \<and>
       Protocol svcPortName = ProtocolUDP \<and> ep \<in> set epList \<and> IsServing ep"
    for svcPortName epList ep
  proof
    let ?se = "\<lparr>Endpoint = String ep, ServicePortName = svcPortName\<rparr>"
    assume "?se \<in> set ?E"
    then obtain k eps e where e: "IsServing e" "deleted (mapIndex newEndpointsMap k) e"
        "?se = \<lparr>Endpoint = String e, ServicePortName = k\<rparr>"
      unfolding staleAll_member by blast
    from e(3) have "k = svcPortName" "String e = String ep" by simp_all
    with e(1,2) h show "\<not> (\<exists>n \<in> set (mapIndex newEndpointsMap svcPortName).
               String n = String ep \<and> IsServing n = IsServing ep)"
      by (simp add: deleted_iff)
  next
    assume "\<not> (\<exists>n \<in> set (mapIndex newEndpointsMap svcPortName).
               String n = String ep \<and> IsServing n = IsServing ep)"
    then have "deleted (mapIndex newEndpointsMap svcPortName) ep" by (simp add: deleted_iff)
    moreover have "(svcPortName, epList) \<in> set oldEndpointsMap"
      using h by (auto dest: map_of_SomeD)
    ultimately show "\<lparr>Endpoint = String ep, ServicePortName = svcPortName\<rparr> \<in> set ?E"
      unfolding staleAll_member using h by blast
  qed
  have origin: "Protocol (ServicePortName se) = ProtocolUDP \<and>
        (\<exists>epList ep. map_of oldEndpointsMap (ServicePortName se) = Some epList \<and>
            ep \<in> set epList \<and> IsServing ep \<and> String ep = Endpoint se)"
    if "se \<in> set ?E" for se
  proof -
    from that obtain k eps e where e: "(k, eps) \<in> set oldEndpointsMap" "Protocol k = ProtocolUDP"
        "e \<in> set eps" "IsServing e" "se = \<lparr>Endpoint = String e, ServicePortName = k\<rparr>"
      unfolding staleAll_member by blast
    have "map_of oldEndpointsMap k = Some eps"
      using assms e(1) by (simp add: keysDistinct_map_of)
    then show ?thesis using e by auto
  qed
  show ?thesis
    apply (rule exI[of _ ?E])
    apply (intro conjI)
      apply (rule appended)
     apply (intro allI impI)
     apply (erule serving)
    apply (intro ballI)
    apply (erule origin)
    done
qed

text \<open>
  The theorem at the old map \<open>{svcA/UDP: [epX], svcA/TCP: [epX]}\<close> and the new map with
  both lists empty: the keys differ, and the pair of \<open>epX\<close> and the UDP identity is
  emitted.
\<close>

theorem detectStale_stale_output_witness:
  "keysDistinct [(svcA_UDP, [epX]), (svcA_TCP, [epX])] \<and>
   \<lparr>Endpoint = ''10.0.0.1:53'', ServicePortName = svcA_UDP\<rparr> \<in>
     set (fst (detectStaleConntrackEntries [(svcA_UDP, [epX]), (svcA_TCP, [epX])]
                 [(svcA_UDP, []), (svcA_TCP, [])] ([], [], [])))"
proof -
  let ?old = "[(svcA_UDP, [epX]), (svcA_TCP, [epX])]"
  let ?new = "[(svcA_UDP, []), (svcA_TCP, [])] :: EndpointsMap"
  have d: "keysDistinct ?old"
    by (simp add: keysDistinct_def svcA_UDP_def svcA_TCP_def)
  obtain emitted where
    e: "fst (detectStaleConntrackEntries ?old ?new ([], [], [])) = [] @ emitted"
    and m: "\<forall>svcPortName epList ep.
        map_of ?old svcPortName = Some epList \<and> Protocol svcPortName = ProtocolUDP \<and>
        ep \<in> set epList \<and> IsServing ep \<longrightarrow>
        (\<lparr>Endpoint = String ep, ServicePortName = svcPortName\<rparr> \<in> set emitted \<longleftrightarrow>
         \<not> (\<exists>n \<in> set (mapIndex ?new svcPortName).
               String n = String ep \<and> IsServing n = IsServing ep))"
    using detectStale_stale_output[OF d, of ?new "[]" "[]" "[]"] by blast
  have "\<lparr>Endpoint = String epX, ServicePortName = svcA_UDP\<rparr> \<in> set emitted"
    using m[rule_format, of svcA_UDP "[epX]" epX]
    by (simp add: mapIndex_def svcA_UDP_def ProtocolUDP_def IsServing_def epX_def)
  then show ?thesis using d e by (simp add: String_def epX_def)
qed

section \<open>The newly-active output of the detector\<close>

text \<open>
  Claim C2. Let the new map have pairwise different keys, and let the detector run with
  any starting contents of its output slices. What it appends to the newly-active list
  is a list \<open>emitted\<close> in which an identity occurs exactly when its protocol is UDP, the
  new map holds it, the number of serving endpoints in its new list is greater than 0,
  and the number of serving endpoints in its old list (the empty list when the old map
  does not hold it) is 0.
\<close>

theorem detectStale_newly_active_output:
  assumes "keysDistinct newEndpointsMap"
  shows "\<exists>emitted.
    fst (snd (detectStaleConntrackEntries oldEndpointsMap newEndpointsMap
           (deletedUDPEndpoints, newlyActiveUDPServices, log))) = newlyActiveUDPServices @ emitted \<and>
    (\<forall>svcPortName.
        svcPortName \<in> set emitted \<longleftrightarrow>
          Protocol svcPortName = ProtocolUDP \<and>
          map_of newEndpointsMap svcPortName \<noteq> None \<and>
          0 < length (filter IsServing (mapIndex newEndpointsMap svcPortName)) \<and>
          length (filter IsServing (mapIndex oldEndpointsMap svcPortName)) = 0)"
proof -
  let ?E = "activeAll oldEndpointsMap newEndpointsMap"
  have "fst (snd (detectStaleConntrackEntries oldEndpointsMap newEndpointsMap
           (deletedUDPEndpoints, newlyActiveUDPServices, log))) = newlyActiveUDPServices @ ?E"
    by (rule detect_newly)
  moreover have "\<forall>svcPortName. svcPortName \<in> set ?E \<longleftrightarrow>
          Protocol svcPortName = ProtocolUDP \<and>
          map_of newEndpointsMap svcPortName \<noteq> None \<and>
          0 < length (filter IsServing (mapIndex newEndpointsMap svcPortName)) \<and>
          length (filter IsServing (mapIndex oldEndpointsMap svcPortName)) = 0"
    using activeAll_member[OF assms] by blast
  ultimately show ?thesis by (intro exI[of _ ?E] conjI)
qed

text \<open>
  The theorem at the old map with empty lists for \<open>svcA/UDP\<close> and \<open>svcA/TCP\<close> and the new
  map with \<open>[epY]\<close> for both: the UDP identity is emitted, the TCP identity is not.
\<close>

theorem detectStale_newly_active_output_witness:
  "keysDistinct [(svcA_UDP, [epY]), (svcA_TCP, [epY])] \<and>
   svcA_UDP \<in> set (fst (snd (detectStaleConntrackEntries [(svcA_UDP, []), (svcA_TCP, [])]
                 [(svcA_UDP, [epY]), (svcA_TCP, [epY])] ([], [], [])))) \<and>
   svcA_TCP \<notin> set (fst (snd (detectStaleConntrackEntries [(svcA_UDP, []), (svcA_TCP, [])]
                 [(svcA_UDP, [epY]), (svcA_TCP, [epY])] ([], [], []))))"
proof -
  let ?old = "[(svcA_UDP, []), (svcA_TCP, [])] :: EndpointsMap"
  let ?new = "[(svcA_UDP, [epY]), (svcA_TCP, [epY])]"
  have d: "keysDistinct ?new"
    by (simp add: keysDistinct_def svcA_UDP_def svcA_TCP_def)
  obtain emitted where
    e: "fst (snd (detectStaleConntrackEntries ?old ?new ([], [], []))) = [] @ emitted"
    and m: "\<forall>svcPortName.
        svcPortName \<in> set emitted \<longleftrightarrow>
          Protocol svcPortName = ProtocolUDP \<and>
          map_of ?new svcPortName \<noteq> None \<and>
          0 < length (filter IsServing (mapIndex ?new svcPortName)) \<and>
          length (filter IsServing (mapIndex ?old svcPortName)) = 0"
    using detectStale_newly_active_output[OF d, of ?old "[]" "[]" "[]"] by blast
  have "svcA_UDP \<in> set emitted"
    using m[rule_format, of svcA_UDP]
    by (simp add: mapIndex_def svcA_UDP_def ProtocolUDP_def IsServing_def epY_def)
  moreover have "svcA_TCP \<notin> set emitted"
    using m[rule_format, of svcA_TCP]
    by (simp add: svcA_TCP_def ProtocolUDP_def)
  ultimately show ?thesis using d e by simp
qed

section \<open>Ingest of a nil slice\<close>

text \<open>
  Claim C3. The claim says that ingest of a nil update logs, returns false, changes
  nothing and never panics. In the source the address type of the slice is read before
  the nil test, so with either value of the removal flag the call ends in a nil pointer
  dereference; the branch that would log and return false is never reached.
\<close>

theorem EndpointSliceUpdate_nil_panics:
  "EndpointSliceUpdate ext ect None removeSlice g = Inl NilPointerDereference"
  by (simp add: EndpointSliceUpdate_def)

section \<open>Applying X and then withdrawing it\<close>

text \<open>
  Claim C4, as amended. Take any owning-object key and any map that is allocated, or a
  nil map when \<open>X\<close> is empty. Apply through \<open>Update\<close> first the change (previous empty,
  current \<open>X\<close>) and then the change (previous \<open>X\<close>, current empty). Both calls return, and
  the map is nil afterwards only if it was nil before. Afterwards every identity that
  \<open>X\<close> holds is absent from the map and every other identity has the entry it had before
  the first apply. So the map is back in its state from before \<open>X\<close> when it held none of
  \<open>X\<close>'s identities then; an entry it held for an identity of \<open>X\<close> is not restored.
\<close>

theorem merge_unmerge_inverse_when_absent:
  assumes "cacheCheckoutChanges ext (endpointSliceCache ect1) =
             ([(nn, \<lparr>previous = [], current = X\<rparr>)], cache1)"
      and "cacheCheckoutChanges ext (endpointSliceCache ect2) =
             ([(nn, \<lparr>previous = X, current = []\<rparr>)], cache2)"
      and "em \<noteq> None \<or> X = []"
  shows "\<exists>em1 em2.
           returnedMap (Update ext em (Some ect1) g1) = Inr em1 \<and>
           returnedMap (Update ext em1 (Some ect2) g2) = Inr em2 \<and>
           (em2 = None \<longleftrightarrow> em = None) \<and>
           (\<forall>svcPortName.
              entryOf em2 svcPortName =
                (if map_of X svcPortName \<noteq> None then None else entryOf em svcPortName)) \<and>
           ((\<forall>svcPortName. map_of X svcPortName \<noteq> None \<longrightarrow> entryOf em svcPortName = None) \<longrightarrow>
            (\<forall>svcPortName. entryOf em2 svcPortName = entryOf em svcPortName))"
proof -
  let ?add = "\<lparr>previous = [], current = X\<rparr>"
  let ?del = "\<lparr>previous = X, current = []\<rparr>"
  have "em \<noteq> None \<or> current ?add = []" using assms(3) by simp
  from Update_single_returns[OF assms(1) this, of g1] obtain em1 where
    x1: "returnedMap (Update ext em (Some ect1) g1) = Inr em1 \<and>
         (em1 = None \<longleftrightarrow> em = None) \<and>
         (\<forall>k. entryOf em1 k =
                (if map_of (current ?add) k \<noteq> None then map_of (current ?add) k
                 else if map_of (previous ?add) k \<noteq> None then None else entryOf em k))" ..
  note u1 = x1[THEN conjunct1] and a1 = x1[THEN conjunct2, THEN conjunct1]
  have e1: "\<forall>k. entryOf em1 k = (if map_of X k \<noteq> None then map_of X k else entryOf em k)"
    using x1[THEN conjunct2, THEN conjunct2] by simp
  have "em1 \<noteq> None \<or> current ?del = []" by simp
  from Update_single_returns[OF assms(2) this, of g2] obtain em2 where
    x2: "returnedMap (Update ext em1 (Some ect2) g2) = Inr em2 \<and>
         (em2 = None \<longleftrightarrow> em1 = None) \<and>
         (\<forall>k. entryOf em2 k =
                (if map_of (current ?del) k \<noteq> None then map_of (current ?del) k
                 else if map_of (previous ?del) k \<noteq> None then None else entryOf em1 k))" ..
  note u2 = x2[THEN conjunct1] and a2 = x2[THEN conjunct2, THEN conjunct1]
  have e2: "\<forall>k. entryOf em2 k = (if map_of X k \<noteq> None then None else entryOf em1 k)"
    using x2[THEN conjunct2, THEN conjunct2] by simp
  have entries: "\<forall>k. entryOf em2 k = (if map_of X k \<noteq> None then None else entryOf em k)"
    using e1 e2 by simp
  then have same: "(\<forall>k. map_of X k \<noteq> None \<longrightarrow> entryOf em k = None) \<longrightarrow>
      (\<forall>k. entryOf em2 k = entryOf em k)"
    by simp
  have nil: "em2 = None \<longleftrightarrow> em = None" using a1 a2 by simp
  show ?thesis
    by (rule exI[of _ em1], rule exI[of _ em2], intro conjI, rule u1, rule u2, rule nil,
        rule entries, rule same)
qed

text \<open>
  The theorem at the allocated map \<open>{svcA/TCP: [epX]}\<close> and \<open>X = {svcA/UDP: [epY]}\<close>: the map
  holds no identity of \<open>X\<close>, and after the two applies it maps the TCP identity to \<open>[epX]\<close>
  and holds nothing for the UDP identity, as before.
\<close>

theorem merge_unmerge_inverse_when_absent_witness:
  "\<exists>em1 em2.
     returnedMap (Update examplePending (Some [(svcA_TCP, [epX])])
        (Some (trackerWith [(nsSvcA, \<lparr>previous = [], current = mapX\<rparr>)])) globals0) = Inr em1 \<and>
     returnedMap (Update examplePending em1
        (Some (trackerWith [(nsSvcA, \<lparr>previous = mapX, current = []\<rparr>)])) globals0) = Inr em2 \<and>
     em2 \<noteq> None \<and>
     entryOf em2 svcA_TCP = Some [epX] \<and>
     entryOf em2 svcA_UDP = None"
proof -
  let ?t1 = "trackerWith [(nsSvcA, \<lparr>previous = [], current = mapX\<rparr>)]"
  let ?t2 = "trackerWith [(nsSvcA, \<lparr>previous = mapX, current = []\<rparr>)]"
  let ?em = "Some [(svcA_TCP, [epX])]"
  have c1: "cacheCheckoutChanges examplePending (endpointSliceCache ?t1) =
     ([(nsSvcA, \<lparr>previous = [], current = mapX\<rparr>)], [])"
    by (simp add: examplePending_def trackerWith_def)
  have c2: "cacheCheckoutChanges examplePending (endpointSliceCache ?t2) =
     ([(nsSvcA, \<lparr>previous = mapX, current = []\<rparr>)], [])"
    by (simp add: examplePending_def trackerWith_def)
  have al: "?em \<noteq> None \<or> mapX = []" by simp
  have ne: "svcA_TCP \<noteq> svcA_UDP" by (simp add: svcA_UDP_def svcA_TCP_def)
  have absent: "\<forall>svcPortName. map_of mapX svcPortName \<noteq> None \<longrightarrow> entryOf ?em svcPortName = None"
    using ne by (simp add: mapX_def entryOf_def)
  from merge_unmerge_inverse_when_absent[OF c1 c2 al, of globals0 globals0]
  obtain em1 where "\<exists>em2.
      returnedMap (Update examplePending ?em (Some ?t1) globals0) = Inr em1 \<and>
      returnedMap (Update examplePending em1 (Some ?t2) globals0) = Inr em2 \<and>
      (em2 = None \<longleftrightarrow> ?em = None) \<and>
      (\<forall>svcPortName. entryOf em2 svcPortName =
         (if map_of mapX svcPortName \<noteq> None then None else entryOf ?em svcPortName)) \<and>
      ((\<forall>svcPortName. map_of mapX svcPortName \<noteq> None \<longrightarrow> entryOf ?em svcPortName = None) \<longrightarrow>
       (\<forall>svcPortName. entryOf em2 svcPortName = entryOf ?em svcPortName))" ..
  then obtain em2 where x:
     "returnedMap (Update examplePending ?em (Some ?t1) globals0) = Inr em1 \<and>
      returnedMap (Update examplePending em1 (Some ?t2) globals0) = Inr em2 \<and>
      (em2 = None \<longleftrightarrow> ?em = None) \<and>
      (\<forall>svcPortName. entryOf em2 svcPortName =
         (if map_of mapX svcPortName \<noteq> None then None else entryOf ?em svcPortName)) \<and>
      ((\<forall>svcPortName. map_of mapX svcPortName \<noteq> None \<longrightarrow> entryOf ?em svcPortName = None) \<longrightarrow>
       (\<forall>svcPortName. entryOf em2 svcPortName = entryOf ?em svcPortName))" ..
  note r1 = x[THEN conjunct1]
    and r2 = x[THEN conjunct2, THEN conjunct1]
    and nn = x[THEN conjunct2, THEN conjunct2, THEN conjunct1]
    and imp = x[THEN conjunct2, THEN conjunct2, THEN conjunct2, THEN conjunct2]
  have same: "\<forall>svcPortName. entryOf em2 svcPortName = entryOf ?em svcPortName"
    using imp absent by (rule mp)
  have "em2 \<noteq> None" using nn by simp
  moreover have "entryOf em2 svcA_TCP = Some [epX]"
    using same by (simp add: entryOf_def)
  moreover have "entryOf em2 svcA_UDP = None"
    using same ne by (simp add: entryOf_def)
  ultimately show ?thesis using r1 r2 by blast
qed

text \<open>
  The claim as it was stated fails at the allocated map \<open>{svcA/UDP: [epX]}\<close> with the same
  \<open>X\<close>: the UDP identity occurs in \<open>X\<close>, the first apply leaves \<open>[epY]\<close> for it and the second
  leaves nothing, instead of \<open>[epX]\<close> again.
\<close>

theorem merge_unmerge_inverse_counterexample:
  "map_of mapX svcA_UDP \<noteq> None \<and>
   returnedMap (Update examplePending (Some [(svcA_UDP, [epX])])
      (Some (trackerWith [(nsSvcA, \<lparr>previous = [], current = mapX\<rparr>)])) globals0) =
     Inr (Some [(svcA_UDP, [epY])]) \<and>
   returnedMap (Update examplePending (Some [(svcA_UDP, [epY])])
      (Some (trackerWith [(nsSvcA, \<lparr>previous = mapX, current = []\<rparr>)])) globals0) =
     Inr (Some []) \<and>
   entryOf (Some []) svcA_UDP \<noteq> entryOf (Some [(svcA_UDP, [epX])]) svcA_UDP"
  by (simp add: mapX_def returnedMap_def Update_def checkoutChanges_def checkoutTriggerTimes_def
      examplePending_def trackerWith_def merge_def unmerge_def mapIndex_def entryOf_def
      detectStaleConntrackEntries_def Let_def split: prod.splits)

section \<open>Postcondition and frame of Update\<close>

text \<open>
  Claim C5, as amended. Let the checkout yield the single change \<open>(previous, current)\<close> of
  one owning object. On a map that is allocated, or on a nil map when \<open>current\<close> is empty,
  \<open>Update\<close> returns, the map is nil afterwards only if it was nil before, its entry for
  every identity that \<open>current\<close> holds is \<open>current\<close>'s entry, every identity that \<open>previous\<close>
  holds and \<open>current\<close> does not is absent, and every identity that neither holds has the
  entry it had. On a nil map with a non-empty \<open>current\<close> the call panics with an
  assignment to an entry of a nil map. When the checkout yields no change at all, the
  call returns and the map is as it was, nil or not.
\<close>

theorem Update_postcondition_frame:
  "(cacheCheckoutChanges ext (endpointSliceCache ect) = ([(nn, change)], cache') \<and>
    (em \<noteq> None \<or> current change = []) \<longrightarrow>
      (\<exists>em'. returnedMap (Update ext em (Some ect) g) = Inr em' \<and>
             (em' = None \<longleftrightarrow> em = None) \<and>
             (\<forall>svcPortName.
                entryOf em' svcPortName =
                  (if map_of (current change) svcPortName \<noteq> None
                   then map_of (current change) svcPortName
                   else if map_of (previous change) svcPortName \<noteq> None then None
                   else entryOf em svcPortName)))) \<and>
   (cacheCheckoutChanges ext (endpointSliceCache ect) = ([(nn, change)], cache') \<and>
    em = None \<and> current change \<noteq> [] \<longrightarrow>
      Update ext em (Some ect) g = Inl AssignmentToEntryInNilMap) \<and>
   (cacheCheckoutChanges ext (endpointSliceCache ect) = ([], cache') \<longrightarrow>
      returnedMap (Update ext em (Some ect) g) = Inr em)"
proof (intro conjI impI)
  assume h: "cacheCheckoutChanges ext (endpointSliceCache ect) = ([(nn, change)], cache') \<and>
    (em \<noteq> None \<or> current change = [])"
  from h have c: "cacheCheckoutChanges ext (endpointSliceCache ect) = ([(nn, change)], cache')"
    and al: "em \<noteq> None \<or> current change = []"
    by simp_all
  show "\<exists>em'. returnedMap (Update ext em (Some ect) g) = Inr em' \<and>
             (em' = None \<longleftrightarrow> em = None) \<and>
             (\<forall>svcPortName.
                entryOf em' svcPortName =
                  (if map_of (current change) svcPortName \<noteq> None
                   then map_of (current change) svcPortName
                   else if map_of (previous change) svcPortName \<noteq> None then None
                   else entryOf em svcPortName))"
    by (rule Update_single_returns[OF c al])
next
  assume h: "cacheCheckoutChanges ext (endpointSliceCache ect) = ([(nn, change)], cache') \<and>
    em = None \<and> current change \<noteq> []"
  then have "merge (unmerge em (previous change)) (current change) = Inl AssignmentToEntryInNilMap"
    by (simp add: unmerge_None merge_None)
  moreover from h have
    "cacheCheckoutChanges ext (endpointSliceCache ect) = ([(nn, change)], cache')" by simp
  ultimately show "Update ext em (Some ect) g = Inl AssignmentToEntryInNilMap"
    by (rule Update_single_panics[rotated])
next
  assume "cacheCheckoutChanges ext (endpointSliceCache ect) = ([], cache')"
  then show "returnedMap (Update ext em (Some ect) g) = Inr em" by (rule Update_none)
qed

text \<open>
  The theorem at the allocated map \<open>{svcA/UDP: [epX]}\<close>: with the single change
  \<open>({svcA/UDP: [epX]}, {svcA/TCP: [epY]})\<close> the TCP identity gets \<open>[epY]\<close> and the UDP identity
  goes; with no change the map stays. At the nil map the same single change panics.
\<close>

theorem Update_postcondition_frame_witness:
  "(\<exists>em'. returnedMap (Update examplePending (Some [(svcA_UDP, [epX])]) (Some (trackerWith
        [(nsSvcA, \<lparr>previous = [(svcA_UDP, [epX])], current = [(svcA_TCP, [epY])]\<rparr>)])) globals0) =
        Inr em' \<and>
      em' \<noteq> None \<and> entryOf em' svcA_TCP = Some [epY] \<and> entryOf em' svcA_UDP = None) \<and>
   Update examplePending None (Some (trackerWith
        [(nsSvcA, \<lparr>previous = [(svcA_UDP, [epX])], current = [(svcA_TCP, [epY])]\<rparr>)])) globals0 =
     Inl AssignmentToEntryInNilMap \<and>
   returnedMap (Update examplePending (Some [(svcA_UDP, [epX])]) (Some (trackerWith [])) globals0) =
     Inr (Some [(svcA_UDP, [epX])])"
proof -
  let ?ch = "\<lparr>previous = [(svcA_UDP, [epX])], current = [(svcA_TCP, [epY])]\<rparr>"
  let ?em = "Some [(svcA_UDP, [epX])]"
  have c1: "cacheCheckoutChanges examplePending (endpointSliceCache (trackerWith [(nsSvcA, ?ch)])) =
     ([(nsSvcA, ?ch)], [])"
    by (simp add: examplePending_def trackerWith_def)
  have c2: "cacheCheckoutChanges examplePending (endpointSliceCache (trackerWith [])) = ([], [])"
    by (simp add: examplePending_def trackerWith_def)
  have ne: "svcA_TCP \<noteq> svcA_UDP" by (simp add: svcA_UDP_def svcA_TCP_def)
  have h1: "cacheCheckoutChanges examplePending (endpointSliceCache (trackerWith [(nsSvcA, ?ch)])) =
     ([(nsSvcA, ?ch)], []) \<and> (?em \<noteq> None \<or> current ?ch = [])"
    using c1 by simp
  have h2: "cacheCheckoutChanges examplePending (endpointSliceCache (trackerWith [(nsSvcA, ?ch)])) =
     ([(nsSvcA, ?ch)], []) \<and> (None :: EndpointsMap option) = None \<and> current ?ch \<noteq> []"
    using c1 by simp
  from Update_postcondition_frame[of examplePending "trackerWith [(nsSvcA, ?ch)]" nsSvcA ?ch "[]"
      ?em globals0, THEN conjunct1, rule_format, OF h1]
  obtain em' where
    x: "returnedMap (Update examplePending ?em (Some (trackerWith [(nsSvcA, ?ch)])) globals0) = Inr em' \<and>
        (em' = None \<longleftrightarrow> ?em = None) \<and>
        (\<forall>svcPortName. entryOf em' svcPortName =
                  (if map_of (current ?ch) svcPortName \<noteq> None
                   then map_of (current ?ch) svcPortName
                   else if map_of (previous ?ch) svcPortName \<noteq> None then None
                   else entryOf ?em svcPortName))" ..
  note r = x[THEN conjunct1] and a = x[THEN conjunct2, THEN conjunct1]
    and e = x[THEN conjunct2, THEN conjunct2]
  have "em' \<noteq> None" using a by simp
  moreover have "entryOf em' svcA_TCP = Some [epY]"
    using e[rule_format, of svcA_TCP] by simp
  moreover have "entryOf em' svcA_UDP = None"
    using e[rule_format, of svcA_UDP] ne by simp
  ultimately have first: "\<exists>em'. returnedMap (Update examplePending ?em
        (Some (trackerWith [(nsSvcA, ?ch)])) globals0) = Inr em' \<and>
      em' \<noteq> None \<and> entryOf em' svcA_TCP = Some [epY] \<and> entryOf em' svcA_UDP = None"
    using r by blast
  have second: "Update examplePending None (Some (trackerWith [(nsSvcA, ?ch)])) globals0 =
     Inl AssignmentToEntryInNilMap"
    by (rule Update_postcondition_frame[of examplePending "trackerWith [(nsSvcA, ?ch)]" nsSvcA ?ch
          "[]" None globals0, THEN conjunct2, THEN conjunct1, rule_format, OF h2])
  have third: "returnedMap (Update examplePending ?em (Some (trackerWith [])) globals0) = Inr ?em"
    by (rule Update_postcondition_frame[of examplePending "trackerWith []" nsSvcA ?ch "[]"
          ?em globals0, THEN conjunct2, THEN conjunct2, rule_format, OF c2])
  from first second third show ?thesis by (intro conjI)
qed

text \<open>
  The claim as it was stated names no condition on the map. On Go's nil map, the zero
  value of the type, the single change with \<open>current = {svcA/UDP: [epY]}\<close> makes \<open>merge\<close>
  assign into the nil map, and the call panics instead of leaving \<open>[epY]\<close> for the
  identity.
\<close>

theorem Update_nil_map_counterexample:
  "cacheCheckoutChanges examplePending
     (endpointSliceCache (trackerWith [(nsSvcA, \<lparr>previous = [], current = mapX\<rparr>)])) =
     ([(nsSvcA, \<lparr>previous = [], current = mapX\<rparr>)], []) \<and>
   map_of mapX svcA_UDP = Some [epY] \<and>
   Update examplePending None
     (Some (trackerWith [(nsSvcA, \<lparr>previous = [], current = mapX\<rparr>)])) globals0 =
     Inl AssignmentToEntryInNilMap"
  by (simp add: mapX_def Update_def checkoutChanges_def examplePending_def trackerWith_def
      merge_def unmerge_def Let_def)

section \<open>Trigger times on ingest\<close>

text \<open>
  Claim C6. Let \<open>EndpointSliceUpdate\<close> return true for a slice whose owning-object key is
  \<open>namespacedName\<close>, on a tracker whose construction time (a reading of the clock) is not
  before the zero instant. If the removal flag is set, the buffered trigger times of
  that key are discarded, and a checkout right after adds nothing for the key. If the
  flag is not set, the buffer changes exactly when the annotation is present, parses,
  and gives an instant strictly after the construction time: then that instant is
  appended to the key's list; in every other case the buffer is as before, and for a
  parsed instant at or before the construction time nothing is logged either.
\<close>

theorem EndpointSliceUpdate_trigger_times:
  assumes "EndpointSliceUpdate ext ect (Some es) removeSlice g = Inr (True, ect', g')"
      and "endpointSliceCacheKeys ext es = Inr (namespacedName, sliceName)"
      and "zeroTime \<le> trackerStartTime ect"
  shows "(removeSlice \<longrightarrow>
            lastChangeTriggerTimes ect' = (lastChangeTriggerTimes ect)(namespacedName := None) \<and>
            (\<forall>triggerTimes.
               snd (checkoutTriggerTimes ect' triggerTimes) namespacedName =
               triggerTimes namespacedName)) \<and>
         (\<not> removeSlice \<longrightarrow>
            (case Annotations es (EndpointsLastChangeTriggerTime ext) of
               None \<Rightarrow> lastChangeTriggerTimes ect' = lastChangeTriggerTimes ect
             | Some v \<Rightarrow>
                 (case time_Parse ext RFC3339Nano v of
                    Inl err \<Rightarrow> lastChangeTriggerTimes ect' = lastChangeTriggerTimes ect
                  | Inr t \<Rightarrow>
                      if trackerStartTime ect < t then
                        lastChangeTriggerTimes ect' =
                          (lastChangeTriggerTimes ect)(namespacedName \<mapsto>
                             (case lastChangeTriggerTimes ect namespacedName of
                                None \<Rightarrow> [] | Some ts \<Rightarrow> ts) @ [t])
                      else lastChangeTriggerTimes ect' = lastChangeTriggerTimes ect \<and>
                           klog g' = klog g)))"
proof (intro conjI impI)
  assume r: removeSlice
  with assms(1,2) show "lastChangeTriggerTimes ect' = (lastChangeTriggerTimes ect)(namespacedName := None)"
    by (auto simp: EndpointSliceUpdate_def Let_def split: if_splits prod.splits)
  then show "\<forall>triggerTimes.
               snd (checkoutTriggerTimes ect' triggerTimes) namespacedName =
               triggerTimes namespacedName"
    by (simp add: checkoutTriggerTimes_def)
next
  assume r: "\<not> removeSlice"
  show "(case Annotations es (EndpointsLastChangeTriggerTime ext) of
               None \<Rightarrow> lastChangeTriggerTimes ect' = lastChangeTriggerTimes ect
             | Some v \<Rightarrow>
                 (case time_Parse ext RFC3339Nano v of
                    Inl err \<Rightarrow> lastChangeTriggerTimes ect' = lastChangeTriggerTimes ect
                  | Inr t \<Rightarrow>
                      if trackerStartTime ect < t then
                        lastChangeTriggerTimes ect' =
                          (lastChangeTriggerTimes ect)(namespacedName \<mapsto>
                             (case lastChangeTriggerTimes ect namespacedName of
                                None \<Rightarrow> [] | Some ts \<Rightarrow> ts) @ [t])
                      else lastChangeTriggerTimes ect' = lastChangeTriggerTimes ect \<and>
                           klog g' = klog g))"
    using assms r
    by (auto simp: EndpointSliceUpdate_def getLastChangeTriggerTime_cases Let_def IsZero_def
        After_def zeroTime_def split: if_splits prod.splits option.splits sum.splits)
qed

text \<open>
  The theorem three times on a tracker built at instant 100 that buffers \<open>[150]\<close> for
  \<open>ns/svcA\<close>: an update annotated with instant 250 leaves \<open>[150, 250]\<close>; one annotated with
  instant 50 leaves \<open>[150]\<close> and an empty log; a removal leaves nothing for the key, in the
  buffer and in the next checkout.
\<close>

theorem EndpointSliceUpdate_trigger_times_witness:
  "zeroTime \<le> trackerStartTime (trackerWith []) \<and>
   (\<exists>ect' g'. EndpointSliceUpdate examplePending (trackerWith [])
                 (Some (sliceWith ''IPv4'' (Some ''T+250''))) False globals0 = Inr (True, ect', g') \<and>
              lastChangeTriggerTimes ect' nsSvcA = Some [150, 250]) \<and>
   (\<exists>ect' g'. EndpointSliceUpdate examplePending (trackerWith [])
                 (Some (sliceWith ''IPv4'' (Some ''T+50''))) False globals0 = Inr (True, ect', g') \<and>
              lastChangeTriggerTimes ect' nsSvcA = Some [150] \<and> klog g' = []) \<and>
   (\<exists>ect' g'. EndpointSliceUpdate examplePending (trackerWith [])
                 (Some (sliceWith ''IPv4'' (Some ''T+250''))) True globals0 = Inr (True, ect', g') \<and>
              lastChangeTriggerTimes ect' nsSvcA = None \<and>
              snd (checkoutTriggerTimes ect' Map.empty) nsSvcA = None)"
proof -
  let ?ect = "trackerWith []"
  let ?late = "sliceWith ''IPv4'' (Some ''T+250'')"
  let ?early = "sliceWith ''IPv4'' (Some ''T+50'')"
  have start: "zeroTime \<le> trackerStartTime ?ect"
    by (simp add: zeroTime_def trackerWith_def)
  have keys: "endpointSliceCacheKeys examplePending es =
      Inr (nsSvcA, \<lparr>Namespace = ''ns'', Name = ''svcA-slice1''\<rparr>)" for es :: EndpointSlice
    by (simp add: examplePending_def)
  have ann: "Annotations (sliceWith a t) (EndpointsLastChangeTriggerTime examplePending) = t" for a t
    by (simp add: sliceWith_def examplePending_def)
  have parse: "time_Parse examplePending RFC3339Nano ''T+250'' = Inr 250"
      "time_Parse examplePending RFC3339Nano ''T+50'' = Inr 50"
    by (simp_all add: examplePending_def)
  have buffered: "lastChangeTriggerTimes ?ect = [nsSvcA \<mapsto> [150]]" "trackerStartTime ?ect = 100"
    by (simp_all add: trackerWith_def)
  have ex: "\<exists>ect' g'. EndpointSliceUpdate examplePending ?ect (Some (sliceWith ''IPv4'' t)) r globals0 =
      Inr (True, ect', g')" for t r
    by (simp add: EndpointSliceUpdate_def supportedEndpointSliceAddressTypes_def
        AddressTypeIPv4_def sliceWith_def examplePending_def Let_def split: prod.splits)
  obtain e1 g1 where r1:
    "EndpointSliceUpdate examplePending ?ect (Some ?late) False globals0 = Inr (True, e1, g1)"
    using ex by blast
  have "lastChangeTriggerTimes e1 nsSvcA = Some [150, 250]"
    using EndpointSliceUpdate_trigger_times[OF r1 keys start, THEN conjunct2]
    by (simp add: ann parse buffered)
  with r1 have c1: "\<exists>ect' g'. EndpointSliceUpdate examplePending ?ect (Some ?late) False globals0 =
      Inr (True, ect', g') \<and> lastChangeTriggerTimes ect' nsSvcA = Some [150, 250]"
    by blast
  obtain e2 g2 where r2:
    "EndpointSliceUpdate examplePending ?ect (Some ?early) False globals0 = Inr (True, e2, g2)"
    using ex by blast
  have "lastChangeTriggerTimes e2 nsSvcA = Some [150] \<and> klog g2 = []"
    using EndpointSliceUpdate_trigger_times[OF r2 keys start, THEN conjunct2]
    by (simp add: ann parse buffered globals0_def)
  with r2 have c2: "\<exists>ect' g'. EndpointSliceUpdate examplePending ?ect (Some ?early) False globals0 =
      Inr (True, ect', g') \<and> lastChangeTriggerTimes ect' nsSvcA = Some [150] \<and> klog g' = []"
    by blast
  obtain e3 g3 where r3:
    "EndpointSliceUpdate examplePending ?ect (Some ?late) True globals0 = Inr (True, e3, g3)"
    using ex by blast
  have "lastChangeTriggerTimes e3 nsSvcA = None \<and>
        snd (checkoutTriggerTimes e3 Map.empty) nsSvcA = None"
    using EndpointSliceUpdate_trigger_times[OF r3 keys start, THEN conjunct1]
    by (simp add: buffered)
  with r3 have c3: "\<exists>ect' g'. EndpointSliceUpdate examplePending ?ect (Some ?late) True globals0 =
      Inr (True, ect', g') \<and> lastChangeTriggerTimes ect' nsSvcA = None \<and>
      snd (checkoutTriggerTimes ect' Map.empty) nsSvcA = None"
    by blast
  from start c1 c2 c3 show ?thesis by (intro conjI)
qed

section \<open>Counting the local ready endpoints\<close>

text \<open>
  Claim C7. For every map with pairwise different keys and every service name, take the
  IP addresses of the endpoints that are ready and local in the lists of all of that
  service's ports. \<open>LocalReadyEndpoints\<close> holds the number of different such addresses for
  the service when there is one, and no entry otherwise.
\<close>

theorem LocalReadyEndpoints_counts_distinct_IPs:
  assumes "keysDistinct em"
  shows "LocalReadyEndpoints em nsn =
     (let ips = {IP ep | svcPortName epList ep.
                   map_of em svcPortName = Some epList \<and> NamespacedName svcPortName = nsn \<and>
                   ep \<in> set epList \<and> IsReady ep \<and> IsLocal ep}
      in if ips = {} then None else Some (card ips))"
proof -
  have e: "{IP ep | svcPortName epList ep.
             map_of em svcPortName = Some epList \<and> NamespacedName svcPortName = nsn \<and>
             ep \<in> set epList \<and> IsReady ep \<and> IsLocal ep} = localReadyIPsOf em nsn"
    using localReadyIPsOf_map_of[OF assms, of nsn] by (rule sym)
  show ?thesis unfolding Let_def e by (simp add: LocalReadyEndpoints_eq)
qed

text \<open>
  The theorem at a service with the local ready endpoint \<open>epX\<close> under two ports (and the
  remote \<open>epY\<close> under one): the addresses are \<open>{10.0.0.1}\<close> and the count is 1, not 2.
\<close>

theorem LocalReadyEndpoints_counts_distinct_IPs_witness:
  "keysDistinct [(svcA_UDP, [epX]), (svcA_TCP, [epX, epY])] \<and>
   {IP ep | svcPortName epList ep.
      map_of [(svcA_UDP, [epX]), (svcA_TCP, [epX, epY])] svcPortName = Some epList \<and>
      NamespacedName svcPortName = nsSvcA \<and> ep \<in> set epList \<and> IsReady ep \<and> IsLocal ep} =
     {''10.0.0.1''} \<and>
   LocalReadyEndpoints [(svcA_UDP, [epX]), (svcA_TCP, [epX, epY])] nsSvcA = Some 1"
proof -
  let ?em = "[(svcA_UDP, [epX]), (svcA_TCP, [epX, epY])]"
  let ?ips = "{IP ep | svcPortName epList ep.
      map_of ?em svcPortName = Some epList \<and>
      NamespacedName svcPortName = nsSvcA \<and> ep \<in> set epList \<and> IsReady ep \<and> IsLocal ep}"
  have d: "keysDistinct ?em"
    by (simp add: keysDistinct_def svcA_UDP_def svcA_TCP_def)
  have w: "localReadyIPsOf ?em nsSvcA = {''10.0.0.1''}"
    by (simp add: localReadyIPsOf_def readyLocalIPs_def svcA_UDP_def
        svcA_TCP_def epX_def epY_def IP_def IsReady_def IsLocal_def)
  have ips: "?ips = {''10.0.0.1''}"
    by (rule trans[OF localReadyIPsOf_map_of[OF d, of nsSvcA, symmetric] w])
  have "LocalReadyEndpoints ?em nsSvcA = (if ?ips = {} then None else Some (card ?ips))"
    using LocalReadyEndpoints_counts_distinct_IPs[OF d, of nsSvcA] unfolding Let_def .
  then have "LocalReadyEndpoints ?em nsSvcA = Some 1"
    unfolding ips by simp
  with d ips show ?thesis by (intro conjI)
qed

section \<open>Ingest of an unsupported address type\<close>

text \<open>
  Claim C8, as amended. For every ingest call whose slice has an address type outside
  the supported set, with either value of the removal flag, the call returns false, the
  tracker is unchanged, and the process state differs from the one before only by one
  more log call, at verbosity 4; neither metric is incremented.
\<close>

theorem EndpointSliceUpdate_unsupported_address_type:
  assumes "AddressType es \<notin> supportedEndpointSliceAddressTypes"
  shows "EndpointSliceUpdate ext ect (Some es) removeSlice g =
     Inr (False, ect,
          g\<lparr>klog := klog g @ [InfoS 4 ''EndpointSlice address type not supported by kube-proxy'']\<rparr>)"
  using assms by (simp add: EndpointSliceUpdate_def)

text \<open>The theorem at a slice of address type \<open>FQDN\<close>, as a removal.\<close>

theorem EndpointSliceUpdate_unsupported_address_type_witness:
  "AddressType (sliceWith ''FQDN'' None) \<notin> supportedEndpointSliceAddressTypes \<and>
   EndpointSliceUpdate examplePending (trackerWith []) (Some (sliceWith ''FQDN'' None)) True globals0 =
     Inr (False, trackerWith [],
          \<lparr>EndpointChangesTotal = 0, EndpointChangesPending = 0,
           klog = [InfoS 4 ''EndpointSlice address type not supported by kube-proxy''],
           observed = ()\<rparr>)"
proof -
  have a: "AddressType (sliceWith ''FQDN'' None) \<notin> supportedEndpointSliceAddressTypes"
    by (simp add: sliceWith_def supportedEndpointSliceAddressTypes_def AddressTypeIPv4_def
        AddressTypeIPv6_def)
  show ?thesis
    using a EndpointSliceUpdate_unsupported_address_type[OF a, of examplePending "trackerWith []"
        True globals0]
    by (simp add: globals0_def)
qed

text \<open>
  The claim as it was stated asks for the update to be counted as well. At the slice of
  address type \<open>FQDN\<close> both metrics are still 0 after the call.
\<close>

theorem unsupported_address_type_counted_counterexample:
  "AddressType (sliceWith ''FQDN'' None) \<notin> supportedEndpointSliceAddressTypes \<and>
   \<not> rejectedAndCounted examplePending (trackerWith []) (sliceWith ''FQDN'' None) False globals0 \<and>
   EndpointSliceUpdate examplePending (trackerWith []) (Some (sliceWith ''FQDN'' None)) False globals0 =
     Inr (False, trackerWith [],
          \<lparr>EndpointChangesTotal = 0, EndpointChangesPending = 0,
           klog = [InfoS 4 ''EndpointSlice address type not supported by kube-proxy''],
           observed = ()\<rparr>)"
  by (simp add: rejectedAndCounted_def EndpointSliceUpdate_def sliceWith_def globals0_def
      supportedEndpointSliceAddressTypes_def AddressTypeIPv4_def AddressTypeIPv6_def)

section \<open>Update with a nil tracker\<close>

text \<open>
  Claim C9. For every map, nil or allocated, and every process state, \<open>Update\<close> with a
  nil tracker returns (it does not panic); it returns the result with an empty set of
  updated services, empty stale and newly-active lists and an empty trigger-time map,
  and leaves the map (and everything else) as it was.
\<close>

theorem Update_nil_tracker:
  "Update ext em None g =
     Inr (\<lparr>UpdatedServices = {}, DeletedUDPEndpoints = [], NewlyActiveUDPServices = [],
          LastChangeTriggerTimes = Map.empty\<rparr>, em, None, g)"
  by (simp add: Update_def)

section \<open>No zero counts\<close>

text \<open>
  Claim C10. Every value in the map that \<open>LocalReadyEndpoints\<close> returns is at least 1; a
  service none of whose endpoints, under any port, is both ready and local has no entry
  at all.
\<close>

theorem LocalReadyEndpoints_values_positive:
  "(LocalReadyEndpoints em nsn = Some n \<longrightarrow> 1 \<le> n) \<and>
   ((\<forall>svcPortName epList ep.
        (svcPortName, epList) \<in> set em \<and> NamespacedName svcPortName = nsn \<and> ep \<in> set epList \<longrightarrow>
        \<not> (IsReady ep \<and> IsLocal ep)) \<longrightarrow>
    LocalReadyEndpoints em nsn = None)"
proof (intro conjI impI)
  assume "LocalReadyEndpoints em nsn = Some n"
  then have "localReadyIPsOf em nsn \<noteq> {}" "n = card (localReadyIPsOf em nsn)"
    by (auto simp: LocalReadyEndpoints_eq split: if_splits)
  then show "1 \<le> n"
    using finite_localReadyIPsOf[of em nsn] by (simp add: Suc_le_eq card_gt_0_iff)
next
  assume "\<forall>svcPortName epList ep.
        (svcPortName, epList) \<in> set em \<and> NamespacedName svcPortName = nsn \<and> ep \<in> set epList \<longrightarrow>
        \<not> (IsReady ep \<and> IsLocal ep)"
  then have "localReadyIPsOf em nsn = {}"
    unfolding localReadyIPsOf_set by blast
  then show "LocalReadyEndpoints em nsn = None" by (simp add: LocalReadyEndpoints_eq)
qed

text \<open>
  The theorem at the service with \<open>epX\<close> under two ports (value 1) and at a map whose only
  endpoint \<open>epY\<close> is not local (no entry).
\<close>

theorem LocalReadyEndpoints_values_positive_witness:
  "LocalReadyEndpoints [(svcA_UDP, [epX]), (svcA_TCP, [epX, epY])] nsSvcA = Some 1 \<and>
   (1::nat) \<le> 1 \<and>
   LocalReadyEndpoints [(svcA_UDP, [epY])] nsSvcA = None"
proof -
  let ?em = "[(svcA_UDP, [epX]), (svcA_TCP, [epX, epY])]"
  have v: "LocalReadyEndpoints ?em nsSvcA = Some 1"
    by (simp add: LocalReadyEndpoints_def getLocalReadyEndpointIPs_def svcA_UDP_def
        svcA_TCP_def epX_def epY_def IP_def IsReady_def IsLocal_def)
  have "1 \<le> (1::nat)"
    using LocalReadyEndpoints_values_positive[of ?em nsSvcA 1, THEN conjunct1] v by blast
  moreover have "\<forall>svcPortName epList ep.
        (svcPortName, epList) \<in> set [(svcA_UDP, [epY])] \<and> NamespacedName svcPortName = nsSvcA \<and>
        ep \<in> set epList \<longrightarrow> \<not> (IsReady ep \<and> IsLocal ep)"
    by (simp add: epY_def IsLocal_def)
  then have "LocalReadyEndpoints [(svcA_UDP, [epY])] nsSvcA = None"
    using LocalReadyEndpoints_values_positive[of "[(svcA_UDP, [epY])]" nsSvcA 0, THEN conjunct2]
    by blast
  ultimately show ?thesis using v by simp
qed

end
